theory Spec2Isabelle
  imports Main "HOL-Library.Multiset"
begin

section \<open>marsutils: the control manager (src/marsutils/controlmanager.py)\<close>

text \<open>
  The module defines \<^verbatim>\<open>ControlInterface\<close>, the base class of a control mode, and
  \<^verbatim>\<open>ControlManager\<close>, which registers the modes with a dashboard chooser, keeps the
  active mode in \<^verbatim>\<open>control_mode\<close> and forwards \<^verbatim>\<open>teleopPeriodic\<close> to it.

  Python objects are compared by identity (\<^verbatim>\<open>ControlInterface\<close> defines no
  \<^verbatim>\<open>__eq__\<close>), so a mode is a reference into a store of objects; two references may
  name objects with the same attributes and still differ.
\<close>

subsection \<open>Data\<close>

text \<open>The values a \<^verbatim>\<open>_DISPLAY_NAME\<close> attribute may hold: a \<^verbatim>\<open>str\<close> or something else.\<close>

datatype pyval = PyNone | PyInt int | PyStr string

text \<open>The three methods of \<^verbatim>\<open>ControlInterface\<close> that the manager calls.\<close>

datatype hook = TeleopPeriodic | Enabled | Disabled

text \<open>
  An instance of (a subclass of) \<^verbatim>\<open>ControlInterface\<close>. The base class only annotates
  \<^verbatim>\<open>_DISPLAY_NAME\<close>, so the attribute exists only where a subclass sets it
  (\<open>None\<close>: \<^verbatim>\<open>hasattr\<close> is false). \<^verbatim>\<open>_SORT\<close> defaults to 0 and always exists. The
  bodies of the three methods belong to the subclass; the base class has \<^verbatim>\<open>pass\<close>.
  What the manager can observe of a call is that it was made and whether it raised:
  \<open>raises\<close> says whether a call of the given method of the object raises, after the
  given calls on modes made so far. Priorities are integers.
\<close>

type_synonym ref = nat

record ControlInterface =
  DISPLAY_NAME :: "pyval option"
  SORT :: int
  raises :: "hook \<Rightarrow> (ref \<times> hook) list \<Rightarrow> bool"

type_synonym store = "ref \<Rightarrow> ControlInterface"

datatype exn = AssertionError | IndexError | HookRaised ref hook

text \<open>The records the module writes to its logger, with their level.\<close>

datatype level = ERROR | WARNING

datatype message =
    NoDisplayName ref
  | NonStringDisplayName ref
  | InvalidControlMode int

text \<open>
  \<^verbatim>\<open>wpilib.SendableChooser\<close> is not part of the repository; it is modelled by the calls
  the constructor makes on it, in order, each with the label and the object registered.
\<close>

datatype chooser_call = addDefault string nat | addObject string nat

text \<open>
  The slots of \<^verbatim>\<open>ControlManager\<close> and, beside them, the two effects of its methods on
  the world outside: the records logged and the methods of modes called, both in order.
  (\<^verbatim>\<open>control_chooser_control\<close> is the listener that calls \<^verbatim>\<open>control_mode_changed\<close>.)
\<close>

record ControlManager =
  control_mode :: "ref option"
  control_interfaces :: "ref list"
  control_chooser :: "chooser_call list"
  logged :: "(level \<times> message) list"
  called :: "(ref \<times> hook) list"

text \<open>A method either returns or raises; the object is mutated in place, so both leave a state.\<close>

datatype outcome = Returns ControlManager | Raises exn ControlManager

fun state_of :: "outcome \<Rightarrow> ControlManager" where
  "state_of (Returns s) = s"
| "state_of (Raises e s) = s"

fun raised :: "outcome \<Rightarrow> exn option" where
  "raised (Returns s) = None"
| "raised (Raises e s) = Some e"

subsection \<open>Python's built-ins\<close>

text \<open>
  \<^verbatim>\<open>sorted(xs, key=k, reverse=True)\<close>: descending by key, and stable: elements with
  equal keys keep the order of the input (the reverse flag does not reverse them).
\<close>

fun insert_desc :: "('a \<Rightarrow> int) \<Rightarrow> 'a \<Rightarrow> 'a list \<Rightarrow> 'a list" where
  "insert_desc k x [] = [x]"
| "insert_desc k x (y # ys) =
     (if k y \<le> k x then x # y # ys else y # insert_desc k x ys)"

fun sorted_reverse :: "('a \<Rightarrow> int) \<Rightarrow> 'a list \<Rightarrow> 'a list" where
  "sorted_reverse k [] = []"
| "sorted_reverse k (x # xs) = insert_desc k x (sorted_reverse k xs)"

text \<open>
  \<^verbatim>\<open>xs[i]\<close> on a list: a negative index counts from the end, and an index outside
  \<open>-len(xs) .. len(xs) - 1\<close> raises \<^verbatim>\<open>IndexError\<close> (\<open>None\<close> here).
\<close>

definition getitem :: "'a list \<Rightarrow> int \<Rightarrow> 'a option" where
  "getitem xs i =
     (if 0 \<le> i \<and> i < int (length xs) then Some (xs ! nat i)
      else if i < 0 \<and> - int (length xs) \<le> i then Some (xs ! nat (int (length xs) + i))
      else None)"

subsection \<open>\<^verbatim>\<open>ControlManager.__init__\<close>\<close>

definition log_error :: "message \<Rightarrow> ControlManager \<Rightarrow> ControlManager" where
  "log_error m s = s\<lparr>logged := logged s @ [(ERROR, m)]\<rparr>"

text \<open>
  The loop over \<^verbatim>\<open>enumerate(interfaces)\<close> (lines 71 to 90). The index \<open>i\<close> counts
  the sorted modes, skipped ones too.
\<close>

fun init_loop :: "store \<Rightarrow> (nat \<times> ref) list \<Rightarrow> ControlManager \<Rightarrow> ControlManager" where
  "init_loop H [] s = s"
| "init_loop H ((i, mode) # rest) s =
     (case DISPLAY_NAME (H mode) of
        None \<Rightarrow> init_loop H rest (log_error (NoDisplayName mode) s)
      | Some (PyStr name) \<Rightarrow>
          init_loop H rest
            (s\<lparr>control_interfaces := control_interfaces s @ [mode],
               control_chooser := control_chooser s @
                 [if i = 0 then addDefault name i else addObject name i]\<rparr>)
      | Some v \<Rightarrow> init_loop H rest (log_error (NonStringDisplayName mode) s))"

text \<open>
  The constructor. After the loop it publishes the chooser with
  \<^verbatim>\<open>SmartDashboard.putData\<close> and creates the \<^verbatim>\<open>ChooserControl\<close> listener; both belong to
  libraries outside the repository and touch none of the manager's other slots.
  The decorators \<^verbatim>\<open>with_ctrl_manager\<close> and \<^verbatim>\<open>provide_setup\<close> wrap methods of a robot
  class and are not modelled.
\<close>

definition init :: "store \<Rightarrow> ref list \<Rightarrow> exn + ControlManager" where
  "init H interfaces =
     (if \<not> length interfaces > 0 then Inl AssertionError
      else Inr (init_loop H
                  (enumerate 0 (sorted_reverse (\<lambda>x. SORT (H x)) interfaces))
                  \<lparr>control_mode = None, control_interfaces = [], control_chooser = [],
                   logged = [], called = []\<rparr>))"

subsection \<open>\<^verbatim>\<open>teleopPeriodic\<close> and \<^verbatim>\<open>control_mode_changed\<close>\<close>

text \<open>Calling a method of a mode: the call is recorded, and it returns or raises.\<close>

definition call_hook :: "store \<Rightarrow> ref \<Rightarrow> hook \<Rightarrow> ControlManager \<Rightarrow> outcome" where
  "call_hook H m h s =
     (if raises (H m) h (called s)
      then Raises (HookRaised m h) (s\<lparr>called := called s @ [(m, h)]\<rparr>)
      else Returns (s\<lparr>called := called s @ [(m, h)]\<rparr>))"

definition teleopPeriodic :: "store \<Rightarrow> ControlManager \<Rightarrow> outcome" where
  "teleopPeriodic H s =
     (case control_mode s of
        None \<Rightarrow> Returns s
      | Some m \<Rightarrow> call_hook H m TeleopPeriodic s)"

text \<open>
  \<^verbatim>\<open>control_mode_changed\<close> ignores its argument and reads the selection from the
  chooser: \<open>new_selected\<close> is what \<^verbatim>\<open>getSelected()\<close> returns, an object registered with
  the chooser or \<^verbatim>\<open>None\<close>. The objects the constructor registers are the indices of
  \<^verbatim>\<open>enumerate\<close>, natural numbers; the method itself takes any integer. Line 109 indexes
  the list before anything else is done, so an index error leaves the state as it was.
\<close>

definition control_mode_changed :: "store \<Rightarrow> int option \<Rightarrow> ControlManager \<Rightarrow> outcome" where
  "control_mode_changed H new_selected s =
     (case new_selected of
        None \<Rightarrow> Returns s
      | Some i \<Rightarrow>
          if i \<ge> int (length (control_interfaces s))
          then Returns (log_error (InvalidControlMode i) s)
          else (case getitem (control_interfaces s) i of
                  None \<Rightarrow> Raises IndexError s
                | Some target \<Rightarrow>
                    if control_mode s \<noteq> Some target then
                      (case (case control_mode s of
                               None \<Rightarrow> Returns s
                             | Some old \<Rightarrow> call_hook H old Disabled s) of
                         Raises e s' \<Rightarrow> Raises e s'
                       | Returns s' \<Rightarrow>
                           call_hook H target Enabled (s'\<lparr>control_mode := Some target\<rparr>))
                    else Returns s))"

subsection \<open>Sequences of calls\<close>

text \<open>
  The host calls the two methods one after the other on the same object. An exception
  goes to the host; the object stays as the raising method left it and later calls go on
  from there.
\<close>

datatype call = SelectionChanged "int option" | Tick

fun step :: "store \<Rightarrow> call \<Rightarrow> ControlManager \<Rightarrow> outcome" where
  "step H (SelectionChanged sel) s = control_mode_changed H sel s"
| "step H Tick s = teleopPeriodic H s"

fun run :: "store \<Rightarrow> call list \<Rightarrow> ControlManager \<Rightarrow> ControlManager" where
  "run H [] s = s"
| "run H (c # cs) s = run H cs (state_of (step H c s))"

text \<open>The check of lines 72 and 78: the attribute exists and is a \<^verbatim>\<open>str\<close>.\<close>

fun is_str :: "pyval option \<Rightarrow> bool" where
  "is_str (Some (PyStr name)) = True"
| "is_str v = False"

definition valid :: "store \<Rightarrow> ref \<Rightarrow> bool" where
  "valid H m = is_str (DISPLAY_NAME (H m))"

text \<open>The record the constructor logs for a mode it skips (lines 73 and 79).\<close>

definition rejection :: "store \<Rightarrow> ref \<Rightarrow> level \<times> message" where
  "rejection H m =
     (case DISPLAY_NAME (H m) of
        None \<Rightarrow> (ERROR, NoDisplayName m)
      | Some v \<Rightarrow> (ERROR, NonStringDisplayName m))"

text \<open>The call the constructor makes on the chooser for a mode it keeps (lines 87 to 90).\<close>

definition registration :: "store \<Rightarrow> nat \<times> ref \<Rightarrow> chooser_call" where
  "registration H p =
     (case DISPLAY_NAME (H (snd p)) of
        Some (PyStr name) \<Rightarrow> if fst p = 0 then addDefault name (fst p) else addObject name (fst p)
      | _ \<Rightarrow> addObject [] (fst p))"

subsection \<open>Example objects\<close>

text \<open>A mode whose methods return, and a store holding the given objects at 0, 1, 2, ...\<close>

definition mode_obj :: "pyval option \<Rightarrow> int \<Rightarrow> ControlInterface" where
  "mode_obj n p = \<lparr>DISPLAY_NAME = n, SORT = p, raises = (\<lambda>h tr. False)\<rparr>"

definition store_of :: "ControlInterface list \<Rightarrow> store" where
  "store_of objs r = (if r < length objs then objs ! r else mode_obj None 0)"

definition priorities_example :: store where
  "priorities_example =
     store_of [mode_obj (Some (PyStr ''mode0'')) 3, mode_obj (Some (PyStr ''mode1'')) 1,
               mode_obj (Some (PyStr ''mode2'')) 3, mode_obj (Some (PyStr ''mode3'')) 0]"

definition partial_example :: store where
  "partial_example =
     store_of [mode_obj (Some (PyStr ''A'')) 0, mode_obj None 0, mode_obj (Some (PyStr ''B'')) 0]"

definition all_invalid_example :: store where
  "all_invalid_example = store_of [mode_obj None 0, mode_obj (Some (PyInt 7)) 0]"

definition first_invalid_example :: store where
  "first_invalid_example = store_of [mode_obj None 0, mode_obj (Some (PyStr ''A'')) 0]"

definition empty_name_example :: store where
  "empty_name_example = store_of [mode_obj (Some (PyStr [])) 0]"

definition two_modes_example :: store where
  "two_modes_example =
     store_of [mode_obj (Some (PyStr ''A'')) 1, mode_obj (Some (PyStr ''B'')) 0]"

text \<open>The manager built from a store and a list of modes, where the constructor returns.\<close>

definition built :: "store \<Rightarrow> ref list \<Rightarrow> ControlManager" where
  "built H interfaces = projr (init H interfaces)"

text \<open>The active mode, when there is one, is a mode of the registry.\<close>

definition registered :: "ControlManager \<Rightarrow> bool" where
  "registered s = (case control_mode s of None \<Rightarrow> True | Some m \<Rightarrow> m \<in> set (control_interfaces s))"

text \<open>Two sequences of calls by the host, the second continuing the first.\<close>

definition calls_example :: "call list" where
  "calls_example = [Tick, SelectionChanged (Some 1), SelectionChanged (Some 5), Tick]"

definition more_calls_example :: "call list" where
  "more_calls_example = [SelectionChanged None, SelectionChanged (Some 0), Tick]"

section \<open>Properties\<close>

subsection \<open>The stable descending sort\<close>

lemma mset_insert_desc: "mset (insert_desc k x xs) = add_mset x (mset xs)"
  by (induction xs) auto
lemma mset_sorted_reverse: "mset (sorted_reverse k xs) = mset xs"
  by (induction xs) (auto simp: mset_insert_desc)
lemma set_insert_desc: "set (insert_desc k x xs) = insert x (set xs)"
  by (induction xs) auto
lemma set_sorted_reverse: "set (sorted_reverse k xs) = set xs"
  by (induction xs) (auto simp: set_insert_desc)
lemma desc_insert_desc: "sorted_wrt (\<lambda>a b. k b \<le> k a) xs \<Longrightarrow> sorted_wrt (\<lambda>a b. k b \<le> k a) (insert_desc k x xs)"
  by (induction xs) (auto simp: set_insert_desc)
lemma desc_sorted_reverse: "sorted_wrt (\<lambda>a b. k b \<le> k a) (sorted_reverse k xs)"
  by (induction xs) (auto simp: desc_insert_desc)
lemma filter_insert_desc_eq: "sorted_wrt (\<lambda>a b. k b \<le> k a) xs \<Longrightarrow> k x = c \<Longrightarrow> filter (\<lambda>y. k y = c) (insert_desc k x xs) = x # filter (\<lambda>y. k y = c) xs"
  by (induction xs) auto
lemma filter_insert_desc_neq: "k x \<noteq> c \<Longrightarrow> filter (\<lambda>y. k y = c) (insert_desc k x xs) = filter (\<lambda>y. k y = c) xs"
  by (induction xs) auto
lemma stable_sorted_reverse: "filter (\<lambda>y. k y = c) (sorted_reverse k xs) = filter (\<lambda>y. k y = c) xs"
  by (induction xs) (auto simp: filter_insert_desc_eq filter_insert_desc_neq desc_sorted_reverse)

subsection \<open>The constructor\<close>

lemma init_loop_interfaces:
  "control_interfaces (init_loop H ps s) = control_interfaces s @ filter (valid H) (map snd ps)"
  by (induction H ps s rule: init_loop.induct)
     (auto simp: valid_def log_error_def split: option.splits pyval.splits)

lemma init_loop_logged:
  "logged (init_loop H ps s) =
     logged s @ map (rejection H) (filter (\<lambda>m. \<not> valid H m) (map snd ps))"
  by (induction H ps s rule: init_loop.induct)
     (auto simp: valid_def log_error_def rejection_def split: option.splits pyval.splits)

lemma init_loop_chooser:
  "control_chooser (init_loop H ps s) =
     control_chooser s @ map (registration H) (filter (\<lambda>p. valid H (snd p)) ps)"
  by (induction H ps s rule: init_loop.induct)
     (auto simp: valid_def log_error_def registration_def split: option.splits pyval.splits)

lemma init_loop_mode: "control_mode (init_loop H ps s) = control_mode s"
  by (induction H ps s rule: init_loop.induct)
     (auto simp: log_error_def split: option.splits pyval.splits)

lemma init_loop_called: "called (init_loop H ps s) = called s"
  by (induction H ps s rule: init_loop.induct)
     (auto simp: log_error_def split: option.splits pyval.splits)

lemma init_Inr:
  "init H ms = Inr s \<longleftrightarrow>
     ms \<noteq> [] \<and> s = init_loop H (enumerate 0 (sorted_reverse (\<lambda>x. SORT (H x)) ms))
       \<lparr>control_mode = None, control_interfaces = [], control_chooser = [], logged = [], called = []\<rparr>"
  by (auto simp: init_def)

lemma init_interfaces:
  "init H ms = Inr s \<Longrightarrow>
     control_interfaces s = filter (valid H) (sorted_reverse (\<lambda>x. SORT (H x)) ms)"
  by (simp add: init_Inr init_loop_interfaces)

lemma init_logged:
  "init H ms = Inr s \<Longrightarrow>
     logged s = map (rejection H) (filter (\<lambda>m. \<not> valid H m) (sorted_reverse (\<lambda>x. SORT (H x)) ms))"
  by (simp add: init_Inr init_loop_logged)

lemma init_mode: "init H ms = Inr s \<Longrightarrow> control_mode s = None"
  by (simp add: init_Inr init_loop_mode)

lemma init_called: "init H ms = Inr s \<Longrightarrow> called s = []"
  by (simp add: init_Inr init_loop_called)

lemma init_built: "ms \<noteq> [] \<Longrightarrow> init H ms = Inr (built H ms)"
  by (simp add: built_def init_def)

lemma valid_iff: "valid H m \<longleftrightarrow> (\<exists>name. DISPLAY_NAME (H m) = Some (PyStr name))"
  unfolding valid_def by (cases "(DISPLAY_NAME (H m))" rule: is_str.cases) auto

lemma fst_rejection: "fst (rejection H m) = ERROR"
  by (simp add: rejection_def split: option.splits)

lemmas example_defs = built_def init_def store_of_def mode_obj_def valid_def rejection_def
  registration_def log_error_def

subsection \<open>Claims about the constructor\<close>

text \<open>
  C7. The registry built by the constructor holds the modes that pass the check of their
  display name, sorted descending by \<^verbatim>\<open>_SORT\<close>, and modes of equal priority keep the
  order of the input: the registry is a permutation of the surviving input, it is
  descending, and for every priority the modes of that priority appear as in the input.
  For priorities 3, 1, 3, 0 the order is mode 0, mode 2, mode 1, mode 3.
\<close>

theorem registry_sorted_stable:
  assumes "init H interfaces = Inr s"
  shows "mset (control_interfaces s) = mset (filter (valid H) interfaces)
    \<and> sorted_wrt (\<lambda>a b. SORT (H b) \<le> SORT (H a)) (control_interfaces s)
    \<and> (\<forall>p. filter (\<lambda>m. SORT (H m) = p) (control_interfaces s) =
            filter (\<lambda>m. SORT (H m) = p) (filter (valid H) interfaces))"
proof -
  let ?k = "\<lambda>x. SORT (H x)"
  have reg: "control_interfaces s = filter (valid H) (sorted_reverse ?k interfaces)"
    using assms by (rule init_interfaces)
  have "mset (control_interfaces s) = mset (filter (valid H) interfaces)"
    by (simp add: reg mset_sorted_reverse)
  moreover have "sorted_wrt (\<lambda>a b. ?k b \<le> ?k a) (control_interfaces s)"
    unfolding reg by (rule sorted_wrt_filter) (rule desc_sorted_reverse)
  moreover have "filter (\<lambda>m. ?k m = p) (control_interfaces s) =
            filter (\<lambda>m. ?k m = p) (filter (valid H) interfaces)" for p
  proof -
    have "filter (\<lambda>m. ?k m = p) (filter (valid H) (sorted_reverse ?k interfaces)) =
          filter (valid H) (filter (\<lambda>m. ?k m = p) (sorted_reverse ?k interfaces))"
      by (simp add: conj_commute)
    also have "\<dots> = filter (valid H) (filter (\<lambda>m. ?k m = p) interfaces)"
      by (simp only: stable_sorted_reverse)
    also have "\<dots> = filter (\<lambda>m. ?k m = p) (filter (valid H) interfaces)"
      by (simp add: conj_commute)
    finally show ?thesis by (simp only: reg)
  qed
  ultimately show ?thesis by blast
qed

theorem registry_sorted_stable_witness:
  "init priorities_example [0, 1, 2, 3] = Inr (built priorities_example [0, 1, 2, 3])
   \<and> map (\<lambda>m. SORT (priorities_example m)) [0, 1, 2, 3] = [3, 1, 3, 0]
   \<and> control_interfaces (built priorities_example [0, 1, 2, 3]) = [0, 2, 1, 3]
   \<and> mset (control_interfaces (built priorities_example [0, 1, 2, 3])) =
       mset (filter (valid priorities_example) [0, 1, 2, 3])
   \<and> sorted_wrt (\<lambda>a b. SORT (priorities_example b) \<le> SORT (priorities_example a))
       (control_interfaces (built priorities_example [0, 1, 2, 3]))
   \<and> (\<forall>p. filter (\<lambda>m. SORT (priorities_example m) = p)
             (control_interfaces (built priorities_example [0, 1, 2, 3])) =
           filter (\<lambda>m. SORT (priorities_example m) = p)
             (filter (valid priorities_example) [0, 1, 2, 3]))"
proof -
  have h: "init priorities_example [0, 1, 2, 3] = Inr (built priorities_example [0, 1, 2, 3])"
    by (rule init_built) simp
  have e: "control_interfaces (built priorities_example [0, 1, 2, 3]) = [0, 2, 1, 3]"
    by (simp add: priorities_example_def example_defs)
  have k: "map (\<lambda>m. SORT (priorities_example m)) [0, 1, 2, 3] = [3, 1, 3, 0]"
    by (simp add: priorities_example_def example_defs)
  show ?thesis using h e k registry_sorted_stable [OF h] by blast
qed

text \<open>
  C8. With no active mode \<^verbatim>\<open>teleopPeriodic\<close> returns and leaves the state as it is:
  no method of a mode is called. That is the state right after construction, where
  \<^verbatim>\<open>control_mode\<close> is \<^verbatim>\<open>None\<close> and no method of a mode has been called.
\<close>

theorem tick_without_active_mode:
  "(control_mode s = None \<longrightarrow> teleopPeriodic H s = Returns s)
   \<and> (init H interfaces = Inr s0 \<longrightarrow>
        control_mode s0 = None \<and> called s0 = [] \<and> teleopPeriodic H s0 = Returns s0)"
  by (simp add: teleopPeriodic_def init_mode init_called)

theorem tick_without_active_mode_witness:
  "control_mode (built two_modes_example [0, 1]) = None
   \<and> teleopPeriodic two_modes_example (built two_modes_example [0, 1]) =
       Returns (built two_modes_example [0, 1])
   \<and> init two_modes_example [0, 1] = Inr (built two_modes_example [0, 1])
   \<and> called (built two_modes_example [0, 1]) = []"
proof -
  have h: "init two_modes_example [0, 1] = Inr (built two_modes_example [0, 1])"
    by (rule init_built) simp
  show ?thesis
    using h tick_without_active_mode
      [of "built two_modes_example [0, 1]" two_modes_example "[0, 1]"
          "built two_modes_example [0, 1]"]
    by simp
qed

text \<open>
  C1 as stated fails. The constructor asserts only that it was given a mode. Given two
  modes, one without \<^verbatim>\<open>_DISPLAY_NAME\<close> and one whose \<^verbatim>\<open>_DISPLAY_NAME\<close> is the integer 7,
  it logs both and returns a manager with no mode.
\<close>

theorem all_invalid_counterexample:
  "\<not> valid all_invalid_example 0 \<and> \<not> valid all_invalid_example 1
   \<and> init all_invalid_example [0, 1] =
       Inr \<lparr>control_mode = None, control_interfaces = [], control_chooser = [],
            logged = [(ERROR, NoDisplayName 0), (ERROR, NonStringDisplayName 1)],
            called = []\<rparr>"
  by (simp add: all_invalid_example_def example_defs)

text \<open>
  C1, amended. The constructor fails exactly when it is given no mode at all. Given at
  least one mode it returns, and the registry of what it returns is empty exactly when
  every mode given fails the check of its display name.
\<close>

theorem init_fails_only_without_modes:
  "(interfaces = [] \<longrightarrow> init H interfaces = Inl AssertionError)
   \<and> (interfaces \<noteq> [] \<longrightarrow> (\<exists>s. init H interfaces = Inr s))
   \<and> (init H interfaces = Inr s \<longrightarrow>
        (control_interfaces s = [] \<longleftrightarrow> (\<forall>m\<in>set interfaces. \<not> valid H m)))"
proof -
  have "control_interfaces s = [] \<longleftrightarrow> (\<forall>m\<in>set interfaces. \<not> valid H m)"
    if "init H interfaces = Inr s"
    using init_interfaces [OF that] by (simp add: filter_empty_conv set_sorted_reverse)
  moreover have "interfaces = [] \<longrightarrow> init H interfaces = Inl AssertionError"
    by (simp add: init_def)
  moreover have "interfaces \<noteq> [] \<longrightarrow> (\<exists>s. init H interfaces = Inr s)"
    by (simp add: init_def)
  ultimately show ?thesis by blast
qed

theorem init_fails_only_without_modes_witness:
  "init two_modes_example [] = Inl AssertionError
   \<and> [0, 1] \<noteq> ([] :: ref list)
   \<and> init two_modes_example [0, 1] = Inr (built two_modes_example [0, 1])
   \<and> control_interfaces (built two_modes_example [0, 1]) \<noteq> []
   \<and> valid two_modes_example 0"
proof -
  have h: "init two_modes_example [0, 1] = Inr (built two_modes_example [0, 1])"
    by (rule init_built) simp
  have v: "valid two_modes_example 0"
    by (simp add: two_modes_example_def example_defs)
  show ?thesis
    using h v init_fails_only_without_modes [of "[]" two_modes_example]
      init_fails_only_without_modes
        [of "[0, 1]" two_modes_example "built two_modes_example [0, 1]"]
    by auto
qed

text \<open>
  C3 as stated fails. The check is that \<^verbatim>\<open>_DISPLAY_NAME\<close> exists and is a \<^verbatim>\<open>str\<close>; an
  empty string passes it. A mode named \<^verbatim>\<open>""\<close> is kept, registered with the chooser,
  and nothing is logged.
\<close>

theorem empty_name_counterexample:
  "DISPLAY_NAME (empty_name_example 0) = Some (PyStr [])
   \<and> init empty_name_example [0] =
       Inr \<lparr>control_mode = None, control_interfaces = [0],
            control_chooser = [addDefault [] 0], logged = [], called = []\<rparr>"
  by (simp add: empty_name_example_def example_defs)

text \<open>
  C3, amended. A mode is kept exactly when its \<^verbatim>\<open>_DISPLAY_NAME\<close> exists and is a
  string (an empty one too). Construction goes on past the others: the registry is the
  sorted input with exactly the kept modes, in the sorted order, and the log holds one
  record per skipped mode, at level error, in the sorted order. For a mode named A, a
  mode without a name and a mode named B the registry is A, B and one error is logged.
\<close>

theorem registry_keeps_string_names:
  assumes "init H interfaces = Inr s"
  shows "control_interfaces s =
           filter (valid H) (sorted_reverse (\<lambda>x. SORT (H x)) interfaces)
    \<and> logged s = map (rejection H)
           (filter (\<lambda>m. \<not> valid H m) (sorted_reverse (\<lambda>x. SORT (H x)) interfaces))
    \<and> (\<forall>m. valid H m \<longleftrightarrow> (\<exists>name. DISPLAY_NAME (H m) = Some (PyStr name)))
    \<and> (\<forall>m. fst (rejection H m) = ERROR)"
  using assms by (simp add: init_interfaces init_logged valid_iff fst_rejection)

theorem registry_keeps_string_names_witness:
  "init partial_example [0, 1, 2] = Inr (built partial_example [0, 1, 2])
   \<and> DISPLAY_NAME (partial_example 0) = Some (PyStr ''A'')
   \<and> DISPLAY_NAME (partial_example 1) = None
   \<and> DISPLAY_NAME (partial_example 2) = Some (PyStr ''B'')
   \<and> control_interfaces (built partial_example [0, 1, 2]) = [0, 2]
   \<and> logged (built partial_example [0, 1, 2]) = [(ERROR, NoDisplayName 1)]
   \<and> control_interfaces (built partial_example [0, 1, 2]) =
        filter (valid partial_example)
          (sorted_reverse (\<lambda>x. SORT (partial_example x)) [0, 1, 2])
   \<and> logged (built partial_example [0, 1, 2]) =
        map (rejection partial_example)
          (filter (\<lambda>m. \<not> valid partial_example m)
            (sorted_reverse (\<lambda>x. SORT (partial_example x)) [0, 1, 2]))"
proof -
  have h: "init partial_example [0, 1, 2] = Inr (built partial_example [0, 1, 2])"
    by (rule init_built) simp
  have e: "DISPLAY_NAME (partial_example 0) = Some (PyStr ''A'')"
    "DISPLAY_NAME (partial_example 1) = None"
    "DISPLAY_NAME (partial_example 2) = Some (PyStr ''B'')"
    "control_interfaces (built partial_example [0, 1, 2]) = [0, 2]"
    "logged (built partial_example [0, 1, 2]) = [(ERROR, NoDisplayName 1)]"
    by (simp_all add: partial_example_def example_defs)
  show ?thesis using h e registry_keeps_string_names [OF h] by blast
qed

text \<open>
  C4 fails on the code. The default is chosen by \<^verbatim>\<open>i == 0\<close>, where \<^verbatim>\<open>i\<close> counts the
  sorted modes before the invalid ones are skipped. With a first mode that has no
  \<^verbatim>\<open>_DISPLAY_NAME\<close> and a second named A, the only surviving mode A is registered with
  \<^verbatim>\<open>addObject\<close> under the object 1: the chooser has no default, and A sits at position 0
  of the registry, not 1: choosing A on the dashboard reports the object 1, which
  \<^verbatim>\<open>control_mode_changed\<close> rejects as an invalid control mode.
\<close>

theorem first_mode_invalid_no_default:
  "init first_invalid_example [0, 1] =
     Inr \<lparr>control_mode = None, control_interfaces = [1],
          control_chooser = [addObject ''A'' 1],
          logged = [(ERROR, NoDisplayName 0)], called = []\<rparr>
   \<and> control_mode_changed first_invalid_example (Some 1) (built first_invalid_example [0, 1]) =
       Returns (log_error (InvalidControlMode 1) (built first_invalid_example [0, 1]))"
  by (simp add: first_invalid_example_def example_defs control_mode_changed_def)

subsection \<open>Selection and tick\<close>

lemma getitem_in_set: "getitem xs i = Some t \<Longrightarrow> t \<in> set xs"
  by (auto simp: getitem_def split: if_splits)

lemma getitem_negative:
  "i < 0 \<Longrightarrow> - int (length xs) \<le> i \<Longrightarrow>
     getitem xs i = Some (xs ! nat (int (length xs) + i))
     \<and> getitem xs (int (length xs) + i) = Some (xs ! nat (int (length xs) + i))"
  by (simp add: getitem_def)

lemma getitem_nat_None: "getitem xs (int k) = None \<longleftrightarrow> length xs \<le> k"
  by (auto simp: getitem_def)

lemma getitem_below: "i < - int (length xs) \<Longrightarrow> getitem xs i = None"
  by (simp add: getitem_def)

lemma call_hook_state:
  "state_of (call_hook H m h s) = s\<lparr>called := called s @ [(m, h)]\<rparr>"
  by (simp add: call_hook_def)

lemma call_hook_raised:
  "raised (call_hook H m h s) =
     (if raises (H m) h (called s) then Some (HookRaised m h) else None)"
  by (simp add: call_hook_def)

lemma changed_invalid:
  "int (length (control_interfaces s)) \<le> i \<Longrightarrow>
     control_mode_changed H (Some i) s = Returns (log_error (InvalidControlMode i) s)"
  by (simp add: control_mode_changed_def)

lemma changed_same:
  "i < int (length (control_interfaces s)) \<Longrightarrow> getitem (control_interfaces s) i = Some A \<Longrightarrow>
     control_mode s = Some A \<Longrightarrow> control_mode_changed H (Some i) s = Returns s"
  by (simp add: control_mode_changed_def)

lemma changed_first:
  "i < int (length (control_interfaces s)) \<Longrightarrow> getitem (control_interfaces s) i = Some B \<Longrightarrow>
     control_mode s = None \<Longrightarrow>
     control_mode_changed H (Some i) s = call_hook H B Enabled (s\<lparr>control_mode := Some B\<rparr>)"
  by (simp add: control_mode_changed_def)

lemma changed_switch:
  "i < int (length (control_interfaces s)) \<Longrightarrow> getitem (control_interfaces s) i = Some B \<Longrightarrow>
     control_mode s = Some A \<Longrightarrow> A \<noteq> B \<Longrightarrow> \<not> raises (H A) Disabled (called s) \<Longrightarrow>
     control_mode_changed H (Some i) s =
       call_hook H B Enabled (s\<lparr>control_mode := Some B, called := called s @ [(A, Disabled)]\<rparr>)"
  by (simp add: control_mode_changed_def call_hook_def)

lemma changed_exit_raises:
  "i < int (length (control_interfaces s)) \<Longrightarrow> getitem (control_interfaces s) i = Some B \<Longrightarrow>
     control_mode s = Some A \<Longrightarrow> A \<noteq> B \<Longrightarrow> raises (H A) Disabled (called s) \<Longrightarrow>
     control_mode_changed H (Some i) s =
       Raises (HookRaised A Disabled) (s\<lparr>called := called s @ [(A, Disabled)]\<rparr>)"
  by (simp add: control_mode_changed_def call_hook_def)

lemma changed_interfaces:
  "control_interfaces (state_of (control_mode_changed H sel s)) = control_interfaces s"
  by (auto simp: control_mode_changed_def call_hook_def log_error_def
           split: option.splits outcome.splits)

lemma changed_logged_negative:
  "i < 0 \<Longrightarrow> logged (state_of (control_mode_changed H (Some i) s)) = logged s"
  by (auto simp: control_mode_changed_def call_hook_def split: option.splits outcome.splits)

lemma changed_mode_cases:
  "control_mode (state_of (control_mode_changed H sel s)) = control_mode s
   \<or> (\<exists>m\<in>set (control_interfaces s). control_mode (state_of (control_mode_changed H sel s)) = Some m)"
  by (auto simp: control_mode_changed_def call_hook_def log_error_def
           split: option.splits outcome.splits dest: getitem_in_set)

lemma tick_fields:
  "control_interfaces (state_of (teleopPeriodic H s)) = control_interfaces s"
  "control_mode (state_of (teleopPeriodic H s)) = control_mode s"
  by (auto simp: teleopPeriodic_def call_hook_def split: option.splits)

lemma step_interfaces: "control_interfaces (state_of (step H c s)) = control_interfaces s"
  by (cases c) (simp_all add: changed_interfaces tick_fields)

lemma step_mode_cases:
  "control_mode (state_of (step H c s)) = control_mode s
   \<or> (\<exists>m\<in>set (control_interfaces s). control_mode (state_of (step H c s)) = Some m)"
  by (cases c) (simp_all add: changed_mode_cases tick_fields)

lemma run_append: "run H (cs @ ds) s = run H ds (run H cs s)"
  by (induction cs arbitrary: s) auto

lemma run_interfaces: "control_interfaces (run H cs s) = control_interfaces s"
  by (induction cs arbitrary: s) (auto simp: step_interfaces)

lemma step_registered: "registered s \<Longrightarrow> registered (state_of (step H c s))"
  using step_mode_cases [of H c s]
  by (auto simp: registered_def step_interfaces split: option.splits)

lemma run_registered: "registered s \<Longrightarrow> registered (run H cs s)"
  by (induction cs arbitrary: s) (auto simp: step_registered)

lemma step_stays_active: "control_mode s \<noteq> None \<Longrightarrow> control_mode (state_of (step H c s)) \<noteq> None"
  using step_mode_cases [of H c s] by auto

lemma run_stays_active: "control_mode s \<noteq> None \<Longrightarrow> control_mode (run H cs s) \<noteq> None"
proof (induction cs arbitrary: s)
  case Nil
  then show ?case by simp
next
  case (Cons c cs)
  from Cons.prems have "control_mode (state_of (step H c s)) \<noteq> None"
    by (rule step_stays_active)
  then have "control_mode (run H cs (state_of (step H c s))) \<noteq> None"
    by (rule Cons.IH)
  then show ?case by simp
qed

lemma init_registered: "init H ms = Inr s \<Longrightarrow> registered s"
  by (simp add: registered_def init_mode)

subsection \<open>Claims about selection and tick\<close>

text \<open>
  C2. The selections the chooser can report are the objects registered with it, natural
  numbers. For every such selection that is no position of the registry (the lookup
  finds no mode, which is the case exactly when the selection is at least the number of
  registered modes), \<^verbatim>\<open>control_mode_changed\<close> returns without raising, and the state it
  leaves differs from the one before in exactly one more logged record, the error for
  this selection: the active mode, the registry, the chooser and the calls made on modes
  are unchanged.
\<close>

theorem invalid_selection_logged:
  assumes "getitem (control_interfaces s) (int k) = None"
  shows "control_mode_changed H (Some (int k)) s =
           Returns (s\<lparr>logged := logged s @ [(ERROR, InvalidControlMode (int k))]\<rparr>)
    \<and> raised (control_mode_changed H (Some (int k)) s) = None
    \<and> logged (state_of (control_mode_changed H (Some (int k)) s)) =
         logged s @ [(ERROR, InvalidControlMode (int k))]
    \<and> control_mode (state_of (control_mode_changed H (Some (int k)) s)) = control_mode s
    \<and> called (state_of (control_mode_changed H (Some (int k)) s)) = called s
    \<and> control_interfaces (state_of (control_mode_changed H (Some (int k)) s)) =
         control_interfaces s
    \<and> control_chooser (state_of (control_mode_changed H (Some (int k)) s)) =
         control_chooser s
    \<and> length (control_interfaces s) \<le> k"
proof -
  from assms have n: "length (control_interfaces s) \<le> k"
    by (simp add: getitem_nat_None)
  then have "control_mode_changed H (Some (int k)) s =
      Returns (log_error (InvalidControlMode (int k)) s)"
    by (intro changed_invalid) simp
  then show ?thesis using n by (simp add: log_error_def)
qed

theorem invalid_selection_logged_witness:
  "getitem (control_interfaces (built two_modes_example [0, 1])) (int 2) = None
   \<and> control_interfaces (built two_modes_example [0, 1]) = [0, 1]
   \<and> control_mode_changed two_modes_example (Some (int 2)) (built two_modes_example [0, 1]) =
       Returns ((built two_modes_example [0, 1])
         \<lparr>logged := logged (built two_modes_example [0, 1]) @
            [(ERROR, InvalidControlMode (int 2))]\<rparr>)
   \<and> raised (control_mode_changed two_modes_example (Some (int 2))
        (built two_modes_example [0, 1])) = None
   \<and> logged (state_of (control_mode_changed two_modes_example (Some (int 2))
        (built two_modes_example [0, 1]))) = [(ERROR, InvalidControlMode 2)]
   \<and> control_mode (state_of (control_mode_changed two_modes_example (Some (int 2))
        (built two_modes_example [0, 1]))) = None"
proof -
  have e: "control_interfaces (built two_modes_example [0, 1]) = [0, 1]"
    "control_mode (built two_modes_example [0, 1]) = None"
    "logged (built two_modes_example [0, 1]) = []"
    by (simp_all add: two_modes_example_def example_defs)
  have h: "getitem (control_interfaces (built two_modes_example [0, 1])) (int 2) = None"
    by (simp add: two_modes_example_def example_defs getitem_def)
  show ?thesis
    using h e invalid_selection_logged [OF h, of two_modes_example] by simp
qed

text \<open>
  C5. Let the selection resolve to the registered mode B. If mode A is active, A differs
  from B and A's \<^verbatim>\<open>disabled\<close> returns, then exactly A's \<^verbatim>\<open>disabled\<close> and after it B's
  \<^verbatim>\<open>enabled\<close> are called and B is the active mode; nothing else of the state changes. If no
  mode is active, only B's \<^verbatim>\<open>enabled\<close> is called and B is the active mode. In both cases
  \<^verbatim>\<open>enabled\<close> is called with the pointer already at B, and the call raises only if
  \<^verbatim>\<open>enabled\<close> does; a following \<^verbatim>\<open>teleopPeriodic\<close> calls B's \<^verbatim>\<open>teleopPeriodic\<close> and no
  other method.
\<close>

theorem clean_transition:
  assumes "i < int (length (control_interfaces s))"
    and "getitem (control_interfaces s) i = Some B"
  shows "(control_mode s = Some A \<and> A \<noteq> B \<and> \<not> raises (H A) Disabled (called s) \<longrightarrow>
            control_mode_changed H (Some i) s =
              call_hook H B Enabled
                (s\<lparr>control_mode := Some B, called := called s @ [(A, Disabled)]\<rparr>)
          \<and> state_of (control_mode_changed H (Some i) s) =
              s\<lparr>control_mode := Some B, called := called s @ [(A, Disabled), (B, Enabled)]\<rparr>)
    \<and> (control_mode s = None \<longrightarrow>
            control_mode_changed H (Some i) s =
              call_hook H B Enabled (s\<lparr>control_mode := Some B\<rparr>)
          \<and> state_of (control_mode_changed H (Some i) s) =
              s\<lparr>control_mode := Some B, called := called s @ [(B, Enabled)]\<rparr>)
    \<and> (control_mode s = None
          \<or> control_mode s = Some A \<and> A \<noteq> B \<and> \<not> raises (H A) Disabled (called s) \<longrightarrow>
            teleopPeriodic H (state_of (control_mode_changed H (Some i) s)) =
              call_hook H B TeleopPeriodic (state_of (control_mode_changed H (Some i) s))
          \<and> called (state_of (teleopPeriodic H (state_of (control_mode_changed H (Some i) s)))) =
              called (state_of (control_mode_changed H (Some i) s)) @ [(B, TeleopPeriodic)])"
proof -
  have switch: "control_mode_changed H (Some i) s =
      call_hook H B Enabled (s\<lparr>control_mode := Some B, called := called s @ [(A, Disabled)]\<rparr>)"
    if "control_mode s = Some A" "A \<noteq> B" "\<not> raises (H A) Disabled (called s)"
    using assms that by (rule changed_switch)
  have first: "control_mode_changed H (Some i) s =
      call_hook H B Enabled (s\<lparr>control_mode := Some B\<rparr>)"
    if "control_mode s = None"
    using assms that by (rule changed_first)
  have 1: "state_of (control_mode_changed H (Some i) s) =
      s\<lparr>control_mode := Some B, called := called s @ [(A, Disabled), (B, Enabled)]\<rparr>"
    if "control_mode s = Some A" "A \<noteq> B" "\<not> raises (H A) Disabled (called s)"
    by (simp add: switch [OF that] call_hook_state)
  have 2: "state_of (control_mode_changed H (Some i) s) =
      s\<lparr>control_mode := Some B, called := called s @ [(B, Enabled)]\<rparr>"
    if "control_mode s = None"
    by (simp add: first [OF that] call_hook_state)
  have 3: "teleopPeriodic H (state_of (control_mode_changed H (Some i) s)) =
              call_hook H B TeleopPeriodic (state_of (control_mode_changed H (Some i) s))
          \<and> called (state_of (teleopPeriodic H (state_of (control_mode_changed H (Some i) s)))) =
              called (state_of (control_mode_changed H (Some i) s)) @ [(B, TeleopPeriodic)]"
    if "control_mode s = None
          \<or> control_mode s = Some A \<and> A \<noteq> B \<and> \<not> raises (H A) Disabled (called s)"
  proof -
    from that have "control_mode (state_of (control_mode_changed H (Some i) s)) = Some B"
      using 1 2 by auto
    then show ?thesis
      by (simp add: teleopPeriodic_def call_hook_state)
  qed
  show ?thesis using switch first 1 2 3 by blast
qed

theorem clean_transition_witness:
  "(1::int) < int (length (control_interfaces (built two_modes_example [0, 1])))
   \<and> getitem (control_interfaces (built two_modes_example [0, 1])) 1 = Some 1
   \<and> control_mode (built two_modes_example [0, 1]) = None
   \<and> state_of (control_mode_changed two_modes_example (Some 1) (built two_modes_example [0, 1])) =
       (built two_modes_example [0, 1])\<lparr>control_mode := Some 1, called := [(1, Enabled)]\<rparr>
   \<and> (0::int) < int (length (control_interfaces
         ((built two_modes_example [0, 1])\<lparr>control_mode := Some 1, called := [(1, Enabled)]\<rparr>)))
   \<and> getitem (control_interfaces
         ((built two_modes_example [0, 1])\<lparr>control_mode := Some 1, called := [(1, Enabled)]\<rparr>)) 0 = Some 0
   \<and> control_mode ((built two_modes_example [0, 1])\<lparr>control_mode := Some 1, called := [(1, Enabled)]\<rparr>)
       = Some 1
   \<and> (1::nat) \<noteq> 0
   \<and> \<not> raises (two_modes_example 1) Disabled [(1, Enabled)]
   \<and> state_of (control_mode_changed two_modes_example (Some 0)
        ((built two_modes_example [0, 1])\<lparr>control_mode := Some 1, called := [(1, Enabled)]\<rparr>)) =
       (built two_modes_example [0, 1])
         \<lparr>control_mode := Some 0, called := [(1, Enabled), (1, Disabled), (0, Enabled)]\<rparr>
   \<and> control_mode_changed two_modes_example (Some 0)
        ((built two_modes_example [0, 1])\<lparr>control_mode := Some 1, called := [(1, Enabled)]\<rparr>) =
       Returns ((built two_modes_example [0, 1])
         \<lparr>control_mode := Some 0, called := [(1, Enabled), (1, Disabled), (0, Enabled)]\<rparr>)
   \<and> called (state_of (teleopPeriodic two_modes_example
        (state_of (control_mode_changed two_modes_example (Some 0)
          ((built two_modes_example [0, 1])\<lparr>control_mode := Some 1, called := [(1, Enabled)]\<rparr>))))) =
       [(1, Enabled), (1, Disabled), (0, Enabled), (0, TeleopPeriodic)]"
proof -
  let ?s0 = "built two_modes_example [0, 1]"
  let ?s1 = "?s0\<lparr>control_mode := Some 1, called := [(1, Enabled)]\<rparr>"
  have b: "control_interfaces ?s0 = [0, 1]" "control_mode ?s0 = None" "called ?s0 = []"
    by (simp_all add: two_modes_example_def example_defs)
  have r: "\<not> raises (two_modes_example 1) Disabled tr" "\<not> raises (two_modes_example 0) Enabled tr"
    for tr
    by (simp_all add: two_modes_example_def example_defs)
  have h1: "(1::int) < int (length (control_interfaces ?s0))"
    by (simp add: two_modes_example_def example_defs)
  have g1: "getitem (control_interfaces ?s0) 1 = Some 1"
    by (simp add: two_modes_example_def example_defs getitem_def)
  have h2: "(0::int) < int (length (control_interfaces ?s1))"
    by (simp add: two_modes_example_def example_defs)
  have g2: "getitem (control_interfaces ?s1) 0 = Some 0"
    by (simp add: two_modes_example_def example_defs getitem_def)
  show ?thesis
    using h1 g1 h2 g2 b r
      clean_transition [OF h1 g1, of 0 two_modes_example]
      clean_transition [OF h2 g2, of 1 two_modes_example]
    by (simp add: teleopPeriodic_def call_hook_def)
qed

text \<open>
  C6. With A active, a selection that resolves to A returns and leaves the state as it
  is, so neither \<^verbatim>\<open>disabled\<close> nor \<^verbatim>\<open>enabled\<close> of A is called; the same holds for any
  number of such selections in a row.
\<close>

theorem reselection_is_noop:
  assumes "control_mode s = Some A"
    and "i < int (length (control_interfaces s))"
    and "getitem (control_interfaces s) i = Some A"
  shows "control_mode_changed H (Some i) s = Returns s
    \<and> run H (replicate k (SelectionChanged (Some i))) s = s"
proof -
  have one: "control_mode_changed H (Some i) s = Returns s"
    using assms(2,3,1) by (rule changed_same)
  have "run H (replicate k (SelectionChanged (Some i))) s = s"
    by (induction k) (simp_all add: one)
  with one show ?thesis by simp
qed

theorem reselection_is_noop_witness:
  "control_mode ((built two_modes_example [0, 1])\<lparr>control_mode := Some 1, called := [(1, Enabled)]\<rparr>)
     = Some 1
   \<and> (1::int) < int (length (control_interfaces
        ((built two_modes_example [0, 1])\<lparr>control_mode := Some 1, called := [(1, Enabled)]\<rparr>)))
   \<and> getitem (control_interfaces
        ((built two_modes_example [0, 1])\<lparr>control_mode := Some 1, called := [(1, Enabled)]\<rparr>)) 1
       = Some 1
   \<and> control_mode_changed two_modes_example (Some 1)
        ((built two_modes_example [0, 1])\<lparr>control_mode := Some 1, called := [(1, Enabled)]\<rparr>)
       = Returns ((built two_modes_example [0, 1])\<lparr>control_mode := Some 1, called := [(1, Enabled)]\<rparr>)
   \<and> run two_modes_example (replicate 3 (SelectionChanged (Some 1)))
        ((built two_modes_example [0, 1])\<lparr>control_mode := Some 1, called := [(1, Enabled)]\<rparr>)
       = (built two_modes_example [0, 1])\<lparr>control_mode := Some 1, called := [(1, Enabled)]\<rparr>"
proof -
  let ?s1 = "(built two_modes_example [0, 1])\<lparr>control_mode := Some 1, called := [(1, Enabled)]\<rparr>"
  have a: "control_mode ?s1 = Some 1" by simp
  have h: "(1::int) < int (length (control_interfaces ?s1))"
    by (simp add: two_modes_example_def example_defs)
  have g: "getitem (control_interfaces ?s1) 1 = Some 1"
    by (simp add: two_modes_example_def example_defs getitem_def)
  show ?thesis
    using a h g reselection_is_noop [OF a h g, of two_modes_example 3] by blast
qed

text \<open>
  C9. From a constructed manager, after any sequence of \<^verbatim>\<open>control_mode_changed\<close> and
  \<^verbatim>\<open>teleopPeriodic\<close> calls (raising ones too) the registry is the one built, the active
  mode is \<^verbatim>\<open>None\<close> or a mode of the registry, and once a mode is active every longer
  sequence of calls leaves some mode active.
\<close>

theorem active_mode_stays_registered:
  assumes "init H interfaces = Inr s0"
  shows "control_interfaces (run H cs s0) = control_interfaces s0
    \<and> (control_mode (run H cs s0) = None
        \<or> (\<exists>m\<in>set (control_interfaces s0). control_mode (run H cs s0) = Some m))
    \<and> (control_mode (run H cs s0) \<noteq> None \<longrightarrow> control_mode (run H (cs @ ds) s0) \<noteq> None)"
proof -
  have "registered (run H cs s0)"
    using assms by (intro run_registered init_registered)
  then have "control_mode (run H cs s0) = None
        \<or> (\<exists>m\<in>set (control_interfaces s0). control_mode (run H cs s0) = Some m)"
    by (auto simp: registered_def run_interfaces split: option.splits)
  moreover have "control_mode (run H (cs @ ds) s0) \<noteq> None"
    if "control_mode (run H cs s0) \<noteq> None"
    unfolding run_append using that by (rule run_stays_active)
  ultimately show ?thesis by (simp add: run_interfaces)
qed

theorem active_mode_stays_registered_witness:
  "init two_modes_example [0, 1] = Inr (built two_modes_example [0, 1])
   \<and> control_interfaces (built two_modes_example [0, 1]) = [0, 1]
   \<and> control_interfaces (run two_modes_example calls_example (built two_modes_example [0, 1]))
       = control_interfaces (built two_modes_example [0, 1])
   \<and> control_mode (run two_modes_example calls_example (built two_modes_example [0, 1])) = Some 1
   \<and> control_mode (run two_modes_example (calls_example @ more_calls_example)
        (built two_modes_example [0, 1])) = Some 0"
proof -
  have h: "init two_modes_example [0, 1] = Inr (built two_modes_example [0, 1])"
    by (rule init_built) simp
  have e: "control_interfaces (built two_modes_example [0, 1]) = [0, 1]"
    "control_mode (run two_modes_example calls_example (built two_modes_example [0, 1])) = Some 1"
    "control_mode (run two_modes_example (calls_example @ more_calls_example)
        (built two_modes_example [0, 1])) = Some 0"
    by (simp_all add: two_modes_example_def example_defs calls_example_def more_calls_example_def
          control_mode_changed_def teleopPeriodic_def call_hook_def getitem_def)
  show ?thesis
    using h e active_mode_stays_registered [OF h, of calls_example more_calls_example]
    by simp
qed

text \<open>
  C10. Only the upper bound of the selection is guarded. For a negative selection \<open>i\<close>
  nothing is logged. If \<open>i\<close> is at least minus the number \<open>n\<close> of registered modes, the
  lookup gives the mode at position \<open>n + i\<close> and the call goes through the exit and
  enter calls of any other selection: with that mode already active nothing is called;
  with no mode active the pointer is set and the mode's \<^verbatim>\<open>enabled\<close> is called; with
  another mode active that mode's \<^verbatim>\<open>disabled\<close> is called first, then the pointer is set
  and \<^verbatim>\<open>enabled\<close> is called, and if \<^verbatim>\<open>disabled\<close> raises the call ends there. So the mode
  at \<open>n + i\<close> is the active one afterwards, and the call is the one for the selection
  \<open>n + i\<close>. If \<open>i\<close> is below minus \<open>n\<close>, the lookup raises \<^verbatim>\<open>IndexError\<close> to the caller
  and the state is unchanged.
\<close>

theorem negative_selection:
  assumes "i < 0"
  shows "logged (state_of (control_mode_changed H (Some i) s)) = logged s
    \<and> (- int (length (control_interfaces s)) \<le> i \<longrightarrow>
         getitem (control_interfaces s) i =
           Some (control_interfaces s ! nat (int (length (control_interfaces s)) + i))
       \<and> control_mode_changed H (Some i) s =
           control_mode_changed H (Some (int (length (control_interfaces s)) + i)) s
       \<and> (control_mode s =
            Some (control_interfaces s ! nat (int (length (control_interfaces s)) + i)) \<longrightarrow>
          control_mode_changed H (Some i) s = Returns s)
       \<and> (control_mode s = None \<longrightarrow>
          control_mode_changed H (Some i) s =
            call_hook H (control_interfaces s ! nat (int (length (control_interfaces s)) + i))
              Enabled
              (s\<lparr>control_mode :=
                   Some (control_interfaces s ! nat (int (length (control_interfaces s)) + i))\<rparr>)
          \<and> state_of (control_mode_changed H (Some i) s) =
            s\<lparr>control_mode :=
                 Some (control_interfaces s ! nat (int (length (control_interfaces s)) + i)),
               called := called s @
                 [(control_interfaces s ! nat (int (length (control_interfaces s)) + i),
                   Enabled)]\<rparr>)
       \<and> (control_mode s = Some old
            \<and> old \<noteq> control_interfaces s ! nat (int (length (control_interfaces s)) + i)
            \<and> \<not> raises (H old) Disabled (called s) \<longrightarrow>
          control_mode_changed H (Some i) s =
            call_hook H (control_interfaces s ! nat (int (length (control_interfaces s)) + i))
              Enabled
              (s\<lparr>control_mode :=
                   Some (control_interfaces s ! nat (int (length (control_interfaces s)) + i)),
                 called := called s @ [(old, Disabled)]\<rparr>)
          \<and> state_of (control_mode_changed H (Some i) s) =
            s\<lparr>control_mode :=
                 Some (control_interfaces s ! nat (int (length (control_interfaces s)) + i)),
               called := called s @
                 [(old, Disabled),
                  (control_interfaces s ! nat (int (length (control_interfaces s)) + i),
                   Enabled)]\<rparr>)
       \<and> (control_mode s = Some old
            \<and> old \<noteq> control_interfaces s ! nat (int (length (control_interfaces s)) + i)
            \<and> raises (H old) Disabled (called s) \<longrightarrow>
          control_mode_changed H (Some i) s =
            Raises (HookRaised old Disabled) (s\<lparr>called := called s @ [(old, Disabled)]\<rparr>))
       \<and> (control_mode s = None
            \<or> (\<exists>m. control_mode s = Some m \<and> \<not> raises (H m) Disabled (called s)) \<longrightarrow>
          control_mode (state_of (control_mode_changed H (Some i) s)) =
            Some (control_interfaces s ! nat (int (length (control_interfaces s)) + i))))
    \<and> (i < - int (length (control_interfaces s)) \<longrightarrow>
         control_mode_changed H (Some i) s = Raises IndexError s)"
proof -
  let ?n = "int (length (control_interfaces s))"
  let ?t = "control_interfaces s ! nat (?n + i)"
  have small: "i < ?n" using assms by simp
  have below: "control_mode_changed H (Some i) s = Raises IndexError s" if "i < - ?n"
    using that assms by (simp add: control_mode_changed_def getitem_below)
  have within: "getitem (control_interfaces s) i = Some ?t"
    "getitem (control_interfaces s) (?n + i) = Some ?t" if "- ?n \<le> i"
    using getitem_negative [OF assms that] by simp_all
  have same: "control_mode_changed H (Some i) s = control_mode_changed H (Some (?n + i)) s"
    if "- ?n \<le> i"
    using assms by (simp add: control_mode_changed_def within [OF that])
  have again: "control_mode_changed H (Some i) s = Returns s"
    if "- ?n \<le> i" "control_mode s = Some ?t"
    using small within(1) [OF that(1)] that(2) by (rule changed_same)
  have first: "control_mode_changed H (Some i) s =
      call_hook H ?t Enabled (s\<lparr>control_mode := Some ?t\<rparr>)"
    if "- ?n \<le> i" "control_mode s = None"
    using small within(1) [OF that(1)] that(2) by (rule changed_first)
  have first_state: "state_of (control_mode_changed H (Some i) s) =
      s\<lparr>control_mode := Some ?t, called := called s @ [(?t, Enabled)]\<rparr>"
    if "- ?n \<le> i" "control_mode s = None"
    by (simp add: first [OF that] call_hook_state)
  have switch: "control_mode_changed H (Some i) s =
      call_hook H ?t Enabled (s\<lparr>control_mode := Some ?t, called := called s @ [(old, Disabled)]\<rparr>)"
    if "- ?n \<le> i" "control_mode s = Some old" "old \<noteq> ?t" "\<not> raises (H old) Disabled (called s)"
    using small within(1) [OF that(1)] that(2,3,4) by (rule changed_switch)
  have switch_state: "state_of (control_mode_changed H (Some i) s) =
      s\<lparr>control_mode := Some ?t, called := called s @ [(old, Disabled), (?t, Enabled)]\<rparr>"
    if "- ?n \<le> i" "control_mode s = Some old" "old \<noteq> ?t" "\<not> raises (H old) Disabled (called s)"
    by (simp add: switch [OF that] call_hook_state)
  have stop: "control_mode_changed H (Some i) s =
      Raises (HookRaised old Disabled) (s\<lparr>called := called s @ [(old, Disabled)]\<rparr>)"
    if "- ?n \<le> i" "control_mode s = Some old" "old \<noteq> ?t" "raises (H old) Disabled (called s)"
    using small within(1) [OF that(1)] that(2,3,4) by (rule changed_exit_raises)
  have active: "control_mode (state_of (control_mode_changed H (Some i) s)) = Some ?t"
    if "- ?n \<le> i"
      and "control_mode s = None \<or> (\<exists>m. control_mode s = Some m \<and> \<not> raises (H m) Disabled (called s))"
    using assms that(2)
    by (auto simp: control_mode_changed_def within [OF that(1)] call_hook_def)
  have inside: "- ?n \<le> i \<longrightarrow>
         getitem (control_interfaces s) i = Some ?t
       \<and> control_mode_changed H (Some i) s = control_mode_changed H (Some (?n + i)) s
       \<and> (control_mode s = Some ?t \<longrightarrow> control_mode_changed H (Some i) s = Returns s)
       \<and> (control_mode s = None \<longrightarrow>
          control_mode_changed H (Some i) s = call_hook H ?t Enabled (s\<lparr>control_mode := Some ?t\<rparr>)
          \<and> state_of (control_mode_changed H (Some i) s) =
            s\<lparr>control_mode := Some ?t, called := called s @ [(?t, Enabled)]\<rparr>)
       \<and> (control_mode s = Some old \<and> old \<noteq> ?t \<and> \<not> raises (H old) Disabled (called s) \<longrightarrow>
          control_mode_changed H (Some i) s =
            call_hook H ?t Enabled
              (s\<lparr>control_mode := Some ?t, called := called s @ [(old, Disabled)]\<rparr>)
          \<and> state_of (control_mode_changed H (Some i) s) =
            s\<lparr>control_mode := Some ?t, called := called s @ [(old, Disabled), (?t, Enabled)]\<rparr>)
       \<and> (control_mode s = Some old \<and> old \<noteq> ?t \<and> raises (H old) Disabled (called s) \<longrightarrow>
          control_mode_changed H (Some i) s =
            Raises (HookRaised old Disabled) (s\<lparr>called := called s @ [(old, Disabled)]\<rparr>))
       \<and> (control_mode s = None
            \<or> (\<exists>m. control_mode s = Some m \<and> \<not> raises (H m) Disabled (called s)) \<longrightarrow>
          control_mode (state_of (control_mode_changed H (Some i) s)) = Some ?t)"
    using within(1) same again first first_state switch switch_state stop active by blast
  show ?thesis
    using changed_logged_negative [OF assms] below inside by blast
qed

theorem negative_selection_witness:
  "(- 1 :: int) < 0
   \<and> - int (length (control_interfaces (built two_modes_example [0, 1]))) \<le> - 1
   \<and> control_mode (built two_modes_example [0, 1]) = None
   \<and> logged (state_of (control_mode_changed two_modes_example (Some (- 1))
        (built two_modes_example [0, 1]))) = logged (built two_modes_example [0, 1])
   \<and> state_of (control_mode_changed two_modes_example (Some (- 1))
        (built two_modes_example [0, 1])) =
       (built two_modes_example [0, 1])\<lparr>control_mode := Some 1, called := [(1, Enabled)]\<rparr>
   \<and> control_mode_changed two_modes_example (Some (- 1)) (built two_modes_example [0, 1]) =
       control_mode_changed two_modes_example (Some 1) (built two_modes_example [0, 1])
   \<and> (- 2 :: int) < 0
   \<and> - int (length (control_interfaces
        ((built two_modes_example [0, 1])\<lparr>control_mode := Some 1, called := [(1, Enabled)]\<rparr>)))
       \<le> - 2
   \<and> \<not> raises (two_modes_example 1) Disabled [(1, Enabled)]
   \<and> control_mode_changed two_modes_example (Some (- 2))
        ((built two_modes_example [0, 1])\<lparr>control_mode := Some 1, called := [(1, Enabled)]\<rparr>) =
       Returns ((built two_modes_example [0, 1])
         \<lparr>control_mode := Some 0, called := [(1, Enabled), (1, Disabled), (0, Enabled)]\<rparr>)
   \<and> control_mode_changed two_modes_example (Some (- 1))
        ((built two_modes_example [0, 1])\<lparr>control_mode := Some 1, called := [(1, Enabled)]\<rparr>) =
       Returns ((built two_modes_example [0, 1])\<lparr>control_mode := Some 1, called := [(1, Enabled)]\<rparr>)
   \<and> (- 3 :: int) < 0
   \<and> - 3 < - int (length (control_interfaces (built two_modes_example [0, 1])))
   \<and> control_mode_changed two_modes_example (Some (- 3)) (built two_modes_example [0, 1]) =
       Raises IndexError (built two_modes_example [0, 1])"
proof -
  let ?s0 = "built two_modes_example [0, 1]"
  let ?s1 = "?s0\<lparr>control_mode := Some 1, called := [(1, Enabled)]\<rparr>"
  have a: "(- 1 :: int) < 0" "(- 2 :: int) < 0" "(- 3 :: int) < 0" by simp_all
  have b: "- int (length (control_interfaces ?s0)) \<le> - 1"
    "control_mode ?s0 = None"
    "- int (length (control_interfaces ?s1)) \<le> - 2"
    "\<not> raises (two_modes_example 1) Disabled [(1, Enabled)]"
    "- 3 < - int (length (control_interfaces ?s0))"
    by (simp_all add: two_modes_example_def example_defs)
  have c: "logged (state_of (control_mode_changed two_modes_example (Some (- 1)) ?s0)) =
        logged ?s0"
    "state_of (control_mode_changed two_modes_example (Some (- 1)) ?s0) = ?s1"
    "control_mode_changed two_modes_example (Some (- 1)) ?s0 =
       control_mode_changed two_modes_example (Some 1) ?s0"
    "control_mode_changed two_modes_example (Some (- 2)) ?s1 =
       Returns (?s0\<lparr>control_mode := Some 0,
         called := [(1, Enabled), (1, Disabled), (0, Enabled)]\<rparr>)"
    "control_mode_changed two_modes_example (Some (- 1)) ?s1 = Returns ?s1"
    by (simp_all add: two_modes_example_def example_defs control_mode_changed_def
          getitem_def call_hook_def)
  have d: "control_mode_changed two_modes_example (Some (- 3)) ?s0 = Raises IndexError ?s0"
    using b(5) negative_selection [OF a(3), of two_modes_example ?s0] by blast
  show ?thesis
    using a b c d negative_selection [OF a(1), of two_modes_example ?s0]
      negative_selection [OF a(2), of two_modes_example ?s1 1]
    by blast
qed

end
